theory Spec2Isabelle
  imports Main "HOL-Library.Char_ord"
begin

section \<open>SwiftRide: data model\<close>

text \<open>
  The program is the single module \<^verbatim>\<open>SwiftRide.py\<close>. Its objects (drivers, customers,
  rides) are mutable and refer to each other (a ride to its driver, a driver to its
  current ride, a customer to the rides of its history), so every object lives in an
  explicit store and is named by a reference, the index at which it was allocated.
  A reference held by a live object always denotes an allocated object in Python; in the
  model this is the well-formedness predicate \<open>wf_heap\<close> below.

  Distances and fares are Python numbers: the signatures say \<^verbatim>\<open>float\<close>, the
  demonstration passes \<^verbatim>\<open>int\<close> values, and the code accepts both. A number is
  therefore either an unbounded integer or a double.
\<close>

type_synonym ref = nat

datatype DriverStatus = AVAILABLE | OCCUPIED

datatype RideType = EconomyRide | LuxuryRide | PoolRide

text \<open>
  The exceptions the module can raise, each with its message. Both
  \<^verbatim>\<open>raise ValueError(...)\<close> statements are in the source; \<open>OverflowError\<close> and
  \<open>AttributeError\<close> can only come from the f-string of \<^verbatim>\<open>SwiftRideSystem.book_ride\<close>.
\<close>

datatype error = ValueError string | OverflowError string | AttributeError string

fun str :: "error \<Rightarrow> string" where
  "str (ValueError msg) = msg"
| "str (OverflowError msg) = msg"
| "str (AttributeError msg) = msg"

section \<open>Python numbers\<close>

text \<open>
  A finite double is an integer multiple of \<open>2^-1074\<close>, the smallest positive double.
  \<open>Finite s m\<close> is the double of sign \<open>s\<close> (\<open>True\<close> for negative) and magnitude
  \<open>m * 2^-1074\<close>; so \<open>1.0\<close> is \<open>Finite False (2 ^ 1074)\<close> and \<open>0.1\<close>, the double
  \<open>3602879701896397 * 2^-55\<close>, is \<open>Finite False (3602879701896397 * 2 ^ 1019)\<close>.
  The doubles are the magnitudes below \<open>2^1024\<close> with at most 53 significant bits
  (\<open>is_double\<close> below).
\<close>

datatype pyfloat = Finite bool int | Infinity bool | NaN

datatype number = PyInt int | PyFloat pyfloat

text \<open>\<^verbatim>\<open>int.bit_length()\<close> of a non-negative integer.\<close>

function bit_length :: "int \<Rightarrow> nat" where
  "bit_length n = (if n \<le> 0 then 0 else Suc (bit_length (n div 2)))"
  by pat_completeness auto
termination
  by (relation "measure nat") auto

declare bit_length.simps [simp del]

text \<open>
  IEEE-754 rounding of a non-negative magnitude to 53 significant bits, to nearest and
  ties to even.
\<close>

definition round53 :: "int \<Rightarrow> int" where
  "round53 n =
     (let k = bit_length n in
      if k \<le> 53 then n
      else
        let s = k - 53; q = n div 2 ^ s; r = n mod 2 ^ s; half = 2 ^ (s - 1);
            q' = (if half < r \<or> (r = half \<and> odd q) then q + 1 else q)
        in q' * 2 ^ s)"

text \<open>
  \<^verbatim>\<open>float(n)\<close> for an \<^verbatim>\<open>int\<close>: the nearest double, or \<^verbatim>\<open>OverflowError\<close> when that
  would be \<open>2^1024\<close> or more.
\<close>

definition float_of_int :: "int \<Rightarrow> error + pyfloat" where
  "float_of_int n =
     (let v = round53 \<bar>n\<bar> in
      if 2 ^ 1024 \<le> v then Inl (OverflowError ''int too large to convert to float'')
      else Inr (Finite (n < 0) (v * 2 ^ 1074)))"

text \<open>
  \<^verbatim>\<open>x * k\<close> for a \<^verbatim>\<open>float\<close> \<open>x\<close> and an \<^verbatim>\<open>int\<close> \<open>k\<close> that is itself a double (the
  literals 5, 10 and 3 of the fare policies): Python converts \<open>k\<close> to that double and
  multiplies, and the IEEE-754 product is the exact product rounded once, or an infinity
  when the rounded magnitude is \<open>2^1024\<close> or more. No exception is raised.
\<close>

definition float_mul_int :: "pyfloat \<Rightarrow> int \<Rightarrow> pyfloat" where
  "float_mul_int x k =
     (case x of
        NaN \<Rightarrow> NaN
      | Infinity s \<Rightarrow> (if k = 0 then NaN else Infinity (s \<noteq> (k < 0)))
      | Finite s m \<Rightarrow>
          (let v = round53 (m * \<bar>k\<bar>) in
           if 2 ^ 2098 \<le> v then Infinity (s \<noteq> (k < 0)) else Finite (s \<noteq> (k < 0)) v))"

text \<open>\<^verbatim>\<open>x * k\<close> for a number \<open>x\<close> and such an \<^verbatim>\<open>int\<close> \<open>k\<close>; on integers it is exact.\<close>

fun times_int :: "number \<Rightarrow> int \<Rightarrow> number" where
  "times_int (PyInt i) k = PyInt (i * k)"
| "times_int (PyFloat x) k = PyFloat (float_mul_int x k)"

text \<open>
  The format specification \<^verbatim>\<open>.0f\<close>: the decimal digits of the value rounded to an
  integer, ties to even, with the sign (also of a zero); an \<^verbatim>\<open>int\<close> is converted to a
  double first.
\<close>

function decimal :: "int \<Rightarrow> string" where
  "decimal n =
     (if n < 10 then [char_of (48 + nat n)]
      else decimal (n div 10) @ [char_of (48 + nat (n mod 10))])"
  by pat_completeness auto
termination
  by (relation "measure nat") auto

declare decimal.simps [simp del]

fun float_format_0f :: "pyfloat \<Rightarrow> string" where
  "float_format_0f NaN = ''nan''"
| "float_format_0f (Infinity s) = (if s then ''-inf'' else ''inf'')"
| "float_format_0f (Finite s m) =
     (let q = m div 2 ^ 1074; r = m mod 2 ^ 1074; half = 2 ^ 1073;
          q' = (if half < r \<or> (r = half \<and> odd q) then q + 1 else q)
      in (if s then ''-'' else []) @ decimal q')"

fun format_0f :: "number \<Rightarrow> error + string" where
  "format_0f (PyInt n) =
     (case float_of_int n of Inl e \<Rightarrow> Inl e | Inr x \<Rightarrow> Inr (float_format_0f x))"
| "format_0f (PyFloat x) = Inr (float_format_0f x)"

section \<open>Objects and the store\<close>

record Driver =
  name :: string
  status :: DriverStatus
  current_ride :: "ref option"

record Customer =
  name :: string
  ride_history :: "ref list"

record Ride =
  customer :: ref
  pickup_location :: string
  dropoff_location :: string
  distance :: number
  ride_type :: RideType
  fare :: number
  driver :: "ref option"
  is_confirmed :: bool

text \<open>The object store, and the text written to standard output so far.\<close>

record heap =
  driver_objs :: "Driver list"
  customer_objs :: "Customer list"
  ride_objs :: "Ride list"
  stdout :: string

record DriverManager =
  drivers :: "ref list"

text \<open>
  \<^verbatim>\<open>SwiftRideSystem\<close>: its \<^verbatim>\<open>booking_service\<close> holds the same \<^verbatim>\<open>DriverManager\<close> object as
  the system itself and has no other field, so the service is represented by that
  manager.
\<close>

record SwiftRideSystem =
  driver_manager :: DriverManager
  customers :: "ref list"

definition print :: "string \<Rightarrow> heap \<Rightarrow> heap" where
  "print s h = h\<lparr>stdout := stdout h @ s @ [CHR 0x0A]\<rparr>"

section \<open>Fare policies and the factory\<close>

fun calculate_fare :: "RideType \<Rightarrow> number \<Rightarrow> number" where
  "calculate_fare EconomyRide dist = times_int dist 5"
| "calculate_fare LuxuryRide dist = times_int dist 10"
| "calculate_fare PoolRide dist = times_int dist 3"

fun get_type_name :: "RideType \<Rightarrow> string" where
  "get_type_name EconomyRide = ''Economy''"
| "get_type_name LuxuryRide = ''Luxury''"
| "get_type_name PoolRide = ''Pool''"

text \<open>
  \<^verbatim>\<open>str.lower()\<close>. A \<^typ>\<open>char\<close> is a byte; the function below is Python's on ASCII text.
  Outside ASCII, Python lowers exactly two code points to text containing an ASCII
  letter (U+0130 to a text with \<open>i\<close>, U+212A to \<open>k\<close>), and neither letter occurs in a key
  of the factory's table, so membership of the lowered string in the table is decided as
  in Python for every input.
\<close>

definition lower_char :: "char \<Rightarrow> char" where
  "lower_char c =
     (if CHR ''A'' \<le> c \<and> c \<le> CHR ''Z'' then char_of (of_char c + (32::nat)) else c)"

definition lower :: "string \<Rightarrow> string" where
  "lower s = map lower_char s"

definition ride_types :: "(string \<times> RideType) list" where
  "ride_types = [(''economy'', EconomyRide), (''luxury'', LuxuryRide), (''pool'', PoolRide)]"

definition create_ride_type :: "string \<Rightarrow> error + RideType" where
  "create_ride_type ride_type_str =
     (let ride_type_lower = lower ride_type_str in
      case map_of ride_types ride_type_lower of
        None \<Rightarrow> Inl (ValueError (''Invalid ride type: '' @ ride_type_str))
      | Some rt \<Rightarrow> Inr rt)"

section \<open>Entities\<close>

definition Driver_init :: "string \<Rightarrow> heap \<Rightarrow> ref \<times> heap" where
  "Driver_init nm h =
     (length (driver_objs h),
      h\<lparr>driver_objs := driver_objs h @
           [\<lparr>Driver.name = nm, status = AVAILABLE, current_ride = None\<rparr>]\<rparr>)"

definition is_available :: "Driver \<Rightarrow> bool" where
  "is_available d = (status d = AVAILABLE)"

text \<open>
  \<^verbatim>\<open>Driver.assign_ride\<close>. An exception leaves the store as it is at the \<^verbatim>\<open>raise\<close>, so the
  store is returned beside the outcome in both cases.
\<close>

definition assign_ride :: "ref \<Rightarrow> ref \<Rightarrow> heap \<Rightarrow> (error + unit) \<times> heap" where
  "assign_ride d ride h =
     (let self = driver_objs h ! d in
      if \<not> is_available self
      then (Inl (ValueError (''Driver '' @ Driver.name self @ '' is not available'')), h)
      else (Inr (),
            h\<lparr>driver_objs := (driver_objs h)
                 [d := self\<lparr>status := OCCUPIED, current_ride := Some ride\<rparr>]\<rparr>))"

definition complete_ride :: "ref \<Rightarrow> heap \<Rightarrow> heap" where
  "complete_ride d h =
     h\<lparr>driver_objs := (driver_objs h)
          [d := (driver_objs h ! d)\<lparr>status := AVAILABLE, current_ride := None\<rparr>]\<rparr>"

definition Customer_init :: "string \<Rightarrow> heap \<Rightarrow> ref \<times> heap" where
  "Customer_init nm h =
     (length (customer_objs h),
      h\<lparr>customer_objs := customer_objs h @ [\<lparr>Customer.name = nm, ride_history = []\<rparr>]\<rparr>)"

definition Ride_init ::
  "ref \<Rightarrow> string \<Rightarrow> string \<Rightarrow> number \<Rightarrow> RideType \<Rightarrow> heap \<Rightarrow> ref \<times> heap" where
  "Ride_init c pickup dropoff dist rt h =
     (length (ride_objs h),
      h\<lparr>ride_objs := ride_objs h @
           [\<lparr>customer = c, pickup_location = pickup, dropoff_location = dropoff,
             distance = dist, ride_type = rt, fare = calculate_fare rt dist,
             driver = None, is_confirmed = False\<rparr>]\<rparr>)"

text \<open>
  \<^verbatim>\<open>Ride.assign_driver\<close>: the driver field is written first, then the driver is asked to
  take the ride (which may raise), and only then is the ride confirmed.
\<close>

definition assign_driver :: "ref \<Rightarrow> ref \<Rightarrow> heap \<Rightarrow> (error + unit) \<times> heap" where
  "assign_driver r d h =
     (let h1 = h\<lparr>ride_objs := (ride_objs h)[r := (ride_objs h ! r)\<lparr>driver := Some d\<rparr>]\<rparr> in
      case assign_ride d r h1 of
        (Inl e, h2) \<Rightarrow> (Inl e, h2)
      | (Inr _, h2) \<Rightarrow>
          (Inr (), h2\<lparr>ride_objs := (ride_objs h2)
                        [r := (ride_objs h2 ! r)\<lparr>is_confirmed := True\<rparr>]\<rparr>))"

section \<open>Driver registry\<close>

definition DriverManager_init :: DriverManager where
  "DriverManager_init = \<lparr>drivers = []\<rparr>"

definition add_driver :: "ref \<Rightarrow> DriverManager \<Rightarrow> DriverManager" where
  "add_driver d dm = dm\<lparr>drivers := drivers dm @ [d]\<rparr>"

text \<open>The \<^verbatim>\<open>for\<close> loop of \<^verbatim>\<open>get_available_driver\<close> over the remaining drivers.\<close>

fun scan_drivers :: "ref list \<Rightarrow> heap \<Rightarrow> ref option" where
  "scan_drivers [] h = None"
| "scan_drivers (d # ds) h =
     (if is_available (driver_objs h ! d) then Some d else scan_drivers ds h)"

definition get_available_driver :: "DriverManager \<Rightarrow> heap \<Rightarrow> ref option" where
  "get_available_driver dm h = scan_drivers (drivers dm) h"

definition get_all_drivers :: "DriverManager \<Rightarrow> ref list" where
  "get_all_drivers dm = drivers dm"

section \<open>Booking service\<close>

definition book_ride ::
  "DriverManager \<Rightarrow> ref \<Rightarrow> string \<Rightarrow> string \<Rightarrow> number \<Rightarrow> string \<Rightarrow> heap
     \<Rightarrow> ref option \<times> heap"
  where
  "book_ride dm c pickup dropoff dist ride_type_str h =
     (case create_ride_type ride_type_str of
        Inl e \<Rightarrow> (None, print (''Error booking ride: '' @ str e) h)
      | Inr rt \<Rightarrow>
          (case Ride_init c pickup dropoff dist rt h of
             (ride, h1) \<Rightarrow>
               (case get_available_driver dm h1 of
                  Some available_driver \<Rightarrow>
                    (case assign_driver ride available_driver h1 of
                       (Inl e, h2) \<Rightarrow> (None, print (''Error booking ride: '' @ str e) h2)
                     | (Inr _, h2) \<Rightarrow>
                         (Some ride,
                          h2\<lparr>customer_objs := (customer_objs h2)
                               [c := (customer_objs h2 ! c)
                                  \<lparr>ride_history :=
                                     ride_history (customer_objs h2 ! c) @ [ride]\<rparr>]\<rparr>))
                | None \<Rightarrow> (None, h1))))"

section \<open>System facade and the demonstration\<close>

definition SwiftRideSystem_init :: SwiftRideSystem where
  "SwiftRideSystem_init = \<lparr>driver_manager = DriverManager_init, customers = []\<rparr>"

definition system_add_driver ::
  "string \<Rightarrow> SwiftRideSystem \<Rightarrow> heap \<Rightarrow> ref \<times> SwiftRideSystem \<times> heap" where
  "system_add_driver nm sys h =
     (case Driver_init nm h of
        (d, h1) \<Rightarrow> (d, sys\<lparr>driver_manager := add_driver d (driver_manager sys)\<rparr>, h1))"

definition system_add_customer ::
  "string \<Rightarrow> SwiftRideSystem \<Rightarrow> heap \<Rightarrow> ref \<times> SwiftRideSystem \<times> heap" where
  "system_add_customer nm sys h =
     (case Customer_init nm h of
        (c, h1) \<Rightarrow> (c, sys\<lparr>customers := customers sys @ [c]\<rparr>, h1))"

definition system_book_ride ::
  "SwiftRideSystem \<Rightarrow> ref \<Rightarrow> string \<Rightarrow> string \<Rightarrow> number \<Rightarrow> string \<Rightarrow> heap
     \<Rightarrow> (error + unit) \<times> heap" where
  "system_book_ride sys c pickup dropoff dist ride_type_str h =
     (case book_ride (driver_manager sys) c pickup dropoff dist ride_type_str h of
        (Some ride, h1) \<Rightarrow>
          (case format_0f (fare (ride_objs h1 ! ride)) of
             Inl e \<Rightarrow> (Inl e, h1)
           | Inr fare_text \<Rightarrow>
               (case driver (ride_objs h1 ! ride) of
                  None \<Rightarrow>
                    (Inl (AttributeError
                            (CHR 0x27 # ''NoneType'' @ CHR 0x27 # '' object has no attribute '' @
                             CHR 0x27 # ''name'' @ [CHR 0x27])), h1)
                | Some d \<Rightarrow>
                    (Inr (),
                     print (''Ride Fare: $'' @ fare_text @ '', Driver: '' @
                            Driver.name (driver_objs h1 ! d)) h1)))
      | (None, h1) \<Rightarrow> (Inr (), print ''No drivers available.'' h1))"

definition empty_heap :: heap where
  "empty_heap = \<lparr>driver_objs = [], customer_objs = [], ride_objs = [], stdout = []\<rparr>"

definition and_then ::
  "(error + unit) \<times> heap \<Rightarrow> (heap \<Rightarrow> (error + unit) \<times> heap) \<Rightarrow> (error + unit) \<times> heap"
  where
  "and_then m f = (case m of (Inl e, h) \<Rightarrow> (Inl e, h) | (Inr _, h) \<Rightarrow> f h)"

definition main :: "heap \<Rightarrow> (error + unit) \<times> heap" where
  "main h0 =
     (case system_add_driver ''Alice'' SwiftRideSystem_init h0 of (alice, sys1, h1) \<Rightarrow>
      case system_add_driver ''Bob'' sys1 h1 of (bob, sys2, h2) \<Rightarrow>
      case system_add_customer ''John'' sys2 h2 of (john, sys3, h3) \<Rightarrow>
      case system_add_customer ''Rebecca'' sys3 h3 of (rebecca, sys4, h4) \<Rightarrow>
      case system_add_customer ''Mike'' sys4 h4 of (mike, system, h5) \<Rightarrow>
      and_then
        (system_book_ride system john ''Airport'' ''Downtown'' (PyInt 15) ''Economy''
           (print ''Task 6:'' (print (''=== SwiftRide System Test ==='' @ [CHR 0x0A]) h5)))
        (\<lambda>h6. and_then
           (system_book_ride system rebecca ''College'' ''Downtown'' (PyInt 10) ''Luxury''
              (print (CHR 0x0A # ''Task 7:'') h6))
           (\<lambda>h7. system_book_ride system mike ''Downtown'' ''Shopping Mall'' (PyInt 5) ''Pool''
                    (print (CHR 0x0A # ''Task 8:'') h7))))"

section \<open>Well-formed stores\<close>

text \<open>
  Every reference held by the registry or by an object of the store denotes an allocated
  object.
\<close>

definition wf_heap :: "DriverManager \<Rightarrow> heap \<Rightarrow> bool" where
  "wf_heap dm h =
     (list_all (\<lambda>d. d < length (driver_objs h)) (drivers dm) \<and>
      list_all (\<lambda>d. case current_ride d of None \<Rightarrow> True
                                          | Some r \<Rightarrow> r < length (ride_objs h))
        (driver_objs h) \<and>
      list_all (\<lambda>c. list_all (\<lambda>r. r < length (ride_objs h)) (ride_history c))
        (customer_objs h) \<and>
      list_all (\<lambda>r. customer r < length (customer_objs h) \<and>
                    (case driver r of None \<Rightarrow> True
                                    | Some d \<Rightarrow> d < length (driver_objs h)))
        (ride_objs h))"

section \<open>Vocabulary of the specification\<close>

text \<open>
  Named after the specification's words, to be compared with the factory: \<open>casing_of w s\<close>
  says that \<open>s\<close> is the lower-case word \<open>w\<close> with any of its letters in upper case, and a
  category is recognized when it is some casing of one of the three category names.
\<close>

definition same_letter :: "char \<Rightarrow> char \<Rightarrow> bool" where
  "same_letter a b =
     (b = a \<or> (CHR ''a'' \<le> a \<and> a \<le> CHR ''z'' \<and> of_char b + (32::nat) = of_char a))"

definition casing_of :: "string \<Rightarrow> string \<Rightarrow> bool" where
  "casing_of w s = list_all2 same_letter w s"

definition recognized :: "string \<Rightarrow> bool" where
  "recognized s =
     (casing_of ''economy'' s \<or> casing_of ''luxury'' s \<or> casing_of ''pool'' s)"

text \<open>
  The per-mile rates of the specification, the doubles among the magnitudes, the value of
  a finite number in units of \<open>2^-1074\<close>, "the fare is exactly \<open>k\<close> times the distance",
  and "the distance is at least 0".
\<close>

fun rate :: "RideType \<Rightarrow> int" where
  "rate EconomyRide = 5"
| "rate LuxuryRide = 10"
| "rate PoolRide = 3"

definition is_double :: "int \<Rightarrow> bool" where
  "is_double m = (0 \<le> m \<and> m < 2 ^ 2098 \<and> 2 ^ (bit_length m - 53) dvd m)"

fun units :: "number \<Rightarrow> int option" where
  "units (PyInt i) = Some (i * 2 ^ 1074)"
| "units (PyFloat (Finite s m)) = Some (if s then - m else m)"
| "units (PyFloat (Infinity s)) = None"
| "units (PyFloat NaN) = None"

definition exactly_times :: "int \<Rightarrow> number \<Rightarrow> number \<Rightarrow> bool" where
  "exactly_times k d f =
     (case (units d, units f) of (Some a, Some b) \<Rightarrow> b = k * a | _ \<Rightarrow> False)"

fun nonneg :: "number \<Rightarrow> bool" where
  "nonneg (PyInt i) = (0 \<le> i)"
| "nonneg (PyFloat (Finite s m)) = (\<not> s \<or> m = 0)"
| "nonneg (PyFloat (Infinity s)) = (\<not> s)"
| "nonneg (PyFloat NaN) = False"

text \<open>The invariant the specification states for a ride: confirmed iff a driver is set.\<close>

definition ride_invariant :: "Ride \<Rightarrow> bool" where
  "ride_invariant r = (is_confirmed r \<longleftrightarrow> driver r \<noteq> None)"

section \<open>Sample stores\<close>

text \<open>
  The registry of the demonstration and its store at three moments: after John's booking
  (Alice taken, Bob free); inside Rebecca's booking, when her ride has been constructed
  and no driver asked yet; and after Rebecca's booking (both drivers taken). The output
  is left empty in all three.
\<close>

definition two_drivers :: DriverManager where
  "two_drivers = \<lparr>drivers = [0, 1]\<rparr>"

definition ride_john :: Ride where
  "ride_john =
     \<lparr>customer = 0, pickup_location = ''Airport'', dropoff_location = ''Downtown'',
      distance = PyInt 15, ride_type = EconomyRide, fare = PyInt 75, driver = Some 0,
      is_confirmed = True\<rparr>"

definition ride_rebecca_new :: Ride where
  "ride_rebecca_new =
     \<lparr>customer = 1, pickup_location = ''College'', dropoff_location = ''Downtown'',
      distance = PyInt 10, ride_type = LuxuryRide, fare = PyInt 100, driver = None,
      is_confirmed = False\<rparr>"

definition three_customers :: "Customer list" where
  "three_customers =
     [\<lparr>Customer.name = ''John'', ride_history = [0]\<rparr>,
      \<lparr>Customer.name = ''Rebecca'', ride_history = []\<rparr>,
      \<lparr>Customer.name = ''Mike'', ride_history = []\<rparr>]"

definition heap_one_booked :: heap where
  "heap_one_booked =
     \<lparr>driver_objs =
        [\<lparr>Driver.name = ''Alice'', status = OCCUPIED, current_ride = Some 0\<rparr>,
         \<lparr>Driver.name = ''Bob'', status = AVAILABLE, current_ride = None\<rparr>],
      customer_objs = three_customers,
      ride_objs = [ride_john],
      stdout = []\<rparr>"

definition heap_ride_pending :: heap where
  "heap_ride_pending = heap_one_booked\<lparr>ride_objs := [ride_john, ride_rebecca_new]\<rparr>"

definition heap_all_booked :: heap where
  "heap_all_booked =
     \<lparr>driver_objs =
        [\<lparr>Driver.name = ''Alice'', status = OCCUPIED, current_ride = Some 0\<rparr>,
         \<lparr>Driver.name = ''Bob'', status = OCCUPIED, current_ride = Some 1\<rparr>],
      customer_objs = three_customers[1 := \<lparr>Customer.name = ''Rebecca'', ride_history = [1]\<rparr>],
      ride_objs = [ride_john, ride_rebecca_new\<lparr>driver := Some 1, is_confirmed := True\<rparr>],
      stdout = []\<rparr>"

section \<open>Fares\<close>

text \<open>
  Facts about bit lengths and about rounding to 53 bits: a magnitude that is a double is
  left as it is, the rounded magnitude is within half a unit in the last place, it is a
  double unless it overflows, and rounding commutes with scaling by a power of two.
\<close>

lemma int_div_less_iff:
  assumes "0 < (b::int)"
  shows "a div b < c \<longleftrightarrow> a < c * b"
proof
  have n: "a = a div b * b + a mod b" by (rule div_mult_mod_eq [symmetric])
  have r: "0 \<le> a mod b" "a mod b < b" using assms by simp_all
  {
    assume "a div b < c"
    then have "a div b + 1 \<le> c" by simp
    then have "(a div b + 1) * b \<le> c * b"
      using assms by (intro mult_right_mono) simp_all
    moreover have "(a div b + 1) * b = a div b * b + b"
      by (simp add: algebra_simps)
    then have "a < (a div b + 1) * b"
      using n r by linarith
    ultimately show "a < c * b" by linarith
  }
  {
    assume lt: "a < c * b"
    show "a div b < c"
    proof (rule ccontr)
      assume "\<not> a div b < c"
      then have "c \<le> a div b" by simp
      then have "c * b \<le> a div b * b"
        using assms by (intro mult_right_mono) simp_all
      with n r lt show False by linarith
    qed
  }
qed

lemma int_le_div_iff:
  assumes "0 < (b::int)"
  shows "c \<le> a div b \<longleftrightarrow> c * b \<le> a"
  using int_div_less_iff [OF assms, of a c] by linarith

lemma bit_length_le_iff: "bit_length n \<le> k \<longleftrightarrow> n < 2 ^ k"
proof (induction k arbitrary: n)
  case 0
  show ?case by (subst bit_length.simps) auto
next
  case (Suc k)
  show ?case
  proof (cases "n \<le> 0")
    case True
    then have "bit_length n = 0" by (subst bit_length.simps) simp
    moreover have "n < 2 ^ Suc k" using True by (smt (verit) zero_less_power)
    ultimately show ?thesis by simp
  next
    case False
    then have "bit_length n = Suc (bit_length (n div 2))"
      by (subst bit_length.simps) simp
    moreover have "n div 2 < 2 ^ k \<longleftrightarrow> n < 2 ^ Suc k" by auto
    ultimately show ?thesis using Suc.IH [of "n div 2"] by simp
  qed
qed

lemma bit_length_less: "n < 2 ^ bit_length n"
  using bit_length_le_iff [of n "bit_length n"] by simp

lemma bit_length_ge:
  assumes "0 < bit_length n"
  shows "2 ^ (bit_length n - 1) \<le> n"
proof -
  have "\<not> bit_length n \<le> bit_length n - 1" using assms by simp
  then have "\<not> n < 2 ^ (bit_length n - 1)" by (simp add: bit_length_le_iff)
  then show ?thesis by linarith
qed

lemma bit_length_eq:
  assumes "2 ^ k \<le> n" and "n < 2 ^ Suc k"
  shows "bit_length n = Suc k"
proof -
  have "bit_length n \<le> Suc k" using assms(2) by (simp only: bit_length_le_iff)
  moreover have "\<not> bit_length n \<le> k" using assms(1) by (simp add: bit_length_le_iff)
  ultimately show ?thesis by simp
qed

lemma bit_length_mult_pow:
  assumes "0 < m"
  shows "bit_length (m * 2 ^ e) = bit_length m + e"
proof -
  have pos: "0 < bit_length m"
    using assms bit_length_le_iff [of m 0] by simp
  then obtain j where j: "bit_length m = Suc j" by (cases "bit_length m") auto
  have lo: "2 ^ j \<le> m" using bit_length_ge [OF pos] j by simp
  have hi: "m < 2 ^ Suc j" using bit_length_less [of m] j by simp
  have "2 ^ (j + e) \<le> m * 2 ^ e"
    using lo by (simp add: power_add)
  moreover have "m * 2 ^ e < 2 ^ Suc (j + e)"
    using hi by (simp add: power_add)
  ultimately have "bit_length (m * 2 ^ e) = Suc (j + e)"
    by (rule bit_length_eq)
  then show ?thesis using j by simp
qed

lemma round53_exact:
  assumes "2 ^ (bit_length v - 53) dvd v"
  shows "round53 v = v"
proof (cases "bit_length v \<le> 53")
  case True
  then show ?thesis by (simp add: round53_def)
next
  case False
  define s where "s = bit_length v - 53"
  have s: "0 < s" using False by (simp add: s_def)
  have r: "v mod 2 ^ s = 0" using assms by (simp add: s_def mod_eq_0_iff_dvd)
  have half: "(0::int) < 2 ^ (s - 1)" by simp
  have "round53 v = (v div 2 ^ s) * 2 ^ s"
    using False r half by (simp add: round53_def Let_def s_def [symmetric])
  also have "\<dots> = v" using r by (simp add: mod_eq_0_iff_dvd)
  finally show ?thesis .
qed

lemma round53_unfold:
  assumes "53 < bit_length n"
  shows "round53 n =
           (if 2 ^ (bit_length n - 54) < n mod 2 ^ (bit_length n - 53) \<or>
               (n mod 2 ^ (bit_length n - 53) = 2 ^ (bit_length n - 54) \<and>
                odd (n div 2 ^ (bit_length n - 53)))
            then n div 2 ^ (bit_length n - 53) + 1 else n div 2 ^ (bit_length n - 53)) *
           2 ^ (bit_length n - 53)"
proof -
  have "bit_length n - 53 - 1 = bit_length n - 54" by simp
  then show ?thesis
    using assms by (simp add: round53_def Let_def)
qed

lemma round53_bound:
  assumes "0 \<le> n"
  shows "2 * \<bar>round53 n - n\<bar> \<le> 2 ^ (bit_length n - 53)"
proof (cases "bit_length n \<le> 53")
  case True
  then show ?thesis by (simp add: round53_def)
next
  case False
  define s where "s = bit_length n - 53"
  define q where "q = n div 2 ^ s"
  define r where "r = n mod 2 ^ s"
  have s: "0 < s" using False by (simp add: s_def)
  have h: "bit_length n - 54 = s - 1" by (simp add: s_def)
  have two: "(2::int) ^ s = 2 * 2 ^ (s - 1)"
    using s by (cases s) simp_all
  have n: "n = q * 2 ^ s + r"
    unfolding q_def r_def by (rule div_mult_mod_eq [symmetric])
  have r: "0 \<le> r" "r < 2 ^ s" by (simp_all add: r_def)
  have "round53 n =
          (if 2 ^ (s - 1) < r \<or> (r = 2 ^ (s - 1) \<and> odd q) then q + 1 else q) * 2 ^ s"
    using False round53_unfold [of n] by (simp add: s_def [symmetric] h q_def r_def)
  then have "round53 n - n = (if 2 ^ (s - 1) < r \<or> (r = 2 ^ (s - 1) \<and> odd q) then 2 ^ s - r else - r)"
    using n by (simp add: algebra_simps)
  then have "2 * \<bar>round53 n - n\<bar> \<le> 2 ^ s"
    using r two by (auto split: if_splits)
  then show ?thesis by (simp add: s_def)
qed

lemma round53_multiple: "2 ^ (bit_length n - 53) dvd round53 n \<or> bit_length n \<le> 53"
proof (cases "bit_length n \<le> 53")
  case True
  then show ?thesis by simp
next
  case False
  then show ?thesis using round53_unfold [of n] by simp
qed

lemma round53_le:
  assumes "53 < bit_length n"
  shows "round53 n \<le> 2 ^ bit_length n" and "2 ^ (bit_length n - 1) \<le> round53 n"
proof -
  define s where "s = bit_length n - 53"
  define q where "q = n div 2 ^ s"
  have k: "bit_length n = 53 + s" using assms by (simp add: s_def)
  have "n < 2 ^ (53 + s)" using bit_length_less [of n] k by simp
  then have "n < 2 ^ 53 * 2 ^ s" by (simp add: power_add)
  then have qhi: "q < 2 ^ 53"
    unfolding q_def by (simp add: int_div_less_iff)
  have "2 ^ (52 + s) \<le> n" using bit_length_ge [of n] k by simp
  then have "2 ^ 52 * 2 ^ s \<le> n" by (simp add: power_add)
  then have qlo: "2 ^ 52 \<le> q"
    unfolding q_def by (simp add: int_le_div_iff)
  have v: "round53 n = q * 2 ^ s \<or> round53 n = (q + 1) * 2 ^ s"
    using assms round53_unfold [of n] by (simp add: s_def [symmetric] q_def)
  have "(q + 1) * 2 ^ s \<le> 2 ^ 53 * 2 ^ s"
    using qhi by (intro mult_right_mono) simp_all
  moreover have "q * 2 ^ s \<le> (q + 1) * 2 ^ s" by (simp add: algebra_simps)
  ultimately show "round53 n \<le> 2 ^ bit_length n"
    using v k by (auto simp: power_add)
  have "2 ^ 52 * 2 ^ s \<le> q * 2 ^ s"
    using qlo by (intro mult_right_mono) simp_all
  moreover have "q * 2 ^ s \<le> (q + 1) * 2 ^ s" by (simp add: algebra_simps)
  ultimately show "2 ^ (bit_length n - 1) \<le> round53 n"
    using v k by (auto simp: power_add)
qed

lemma round53_nonneg:
  assumes "0 \<le> n"
  shows "0 \<le> round53 n"
proof (cases "bit_length n \<le> 53")
  case True
  then show ?thesis using assms by (simp add: round53_def)
next
  case False
  then have "(2::int) ^ (bit_length n - 1) \<le> round53 n"
    by (intro round53_le) simp
  moreover have "(0::int) \<le> 2 ^ (bit_length n - 1)" by simp
  ultimately show ?thesis by linarith
qed

lemma is_double_round53:
  assumes "0 \<le> n" and "round53 n < 2 ^ 2098"
  shows "is_double (round53 n)"
proof (cases "bit_length n \<le> 53")
  case True
  then have "round53 n = n" by (simp add: round53_def)
  moreover have "bit_length n - 53 = 0" using True by simp
  ultimately show ?thesis using assms by (simp add: is_double_def)
next
  case False
  define v where "v = round53 n"
  define s where "s = bit_length n - 53"
  have k: "bit_length n = 53 + s" using False by (simp add: s_def)
  have dv: "2 ^ s dvd v"
    using False round53_multiple [of n] by (simp add: s_def v_def)
  have le: "v \<le> 2 ^ (53 + s)"
    using False round53_le(1) [of n] k by (simp add: v_def)
  have "2 ^ (bit_length v - 53) dvd v"
  proof (cases "v < 2 ^ (53 + s)")
    case True
    then have "bit_length v \<le> 53 + s" by (simp only: bit_length_le_iff)
    then have "bit_length v - 53 \<le> s" by simp
    then have "(2::int) ^ (bit_length v - 53) dvd 2 ^ s" by (rule le_imp_power_dvd)
    then show ?thesis using dv by (rule dvd_trans)
  next
    case False
    with le have v: "v = 2 ^ (53 + s)" by simp
    then have "v < 2 ^ (54 + s)" by simp
    then have "bit_length v \<le> 54 + s" by (simp only: bit_length_le_iff)
    then have "bit_length v - 53 \<le> 53 + s" by simp
    then have "(2::int) ^ (bit_length v - 53) dvd 2 ^ (53 + s)" by (rule le_imp_power_dvd)
    then show ?thesis using v by simp
  qed
  moreover have "0 \<le> v" using assms(1) by (simp add: v_def round53_nonneg)
  ultimately show ?thesis using assms(2) by (simp add: is_double_def v_def)
qed

lemma round53_scale:
  assumes "53 < bit_length m"
  shows "round53 (m * 2 ^ e) = round53 m * 2 ^ e"
proof -
  define s where "s = bit_length m - 53"
  have pos: "0 < m"
  proof (rule ccontr)
    assume "\<not> 0 < m"
    then have "bit_length m = 0" by (subst bit_length.simps) simp
    with assms show False by simp
  qed
  have k: "bit_length m = 53 + s" using assms by (simp add: s_def)
  have s: "0 < s" using assms by (simp add: s_def)
  have k': "bit_length (m * 2 ^ e) = 53 + (s + e)"
    using bit_length_mult_pow [OF pos, of e] k by simp
  have p: "(2::int) ^ (s + e) = 2 ^ s * 2 ^ e" by (simp add: power_add)
  have h: "(2::int) ^ (s + e - 1) = 2 ^ (s - 1) * 2 ^ e"
    using s by (cases s) (simp_all add: power_add)
  have d: "(m * 2 ^ e) div (2 ^ s * 2 ^ e) = m div 2 ^ s" by simp
  have r: "(m * 2 ^ e) mod (2 ^ s * 2 ^ e) = (m mod 2 ^ s) * 2 ^ e" by simp
  have a: "round53 m =
      (if 2 ^ (s - 1) < m mod 2 ^ s \<or> (m mod 2 ^ s = 2 ^ (s - 1) \<and> odd (m div 2 ^ s))
       then m div 2 ^ s + 1 else m div 2 ^ s) * 2 ^ s"
    using round53_unfold [OF assms] k by simp
  have big: "53 < bit_length (m * 2 ^ e)" using k' s by simp
  have e1: "bit_length (m * 2 ^ e) - 53 = s + e" using k' by simp
  have e2: "bit_length (m * 2 ^ e) - 54 = s + e - 1" using k' by simp
  have b: "round53 (m * 2 ^ e) =
      (if 2 ^ (s - 1) * 2 ^ e < (m mod 2 ^ s) * 2 ^ e \<or>
          ((m mod 2 ^ s) * 2 ^ e = 2 ^ (s - 1) * 2 ^ e \<and> odd (m div 2 ^ s))
       then m div 2 ^ s + 1 else m div 2 ^ s) * (2 ^ s * 2 ^ e)"
    unfolding round53_unfold [OF big] e1 e2 h p d r by (rule refl)
  show ?thesis
    unfolding a b by simp
qed

lemma is_double_scaled:
  assumes "0 < m" and "m < 2 ^ 53" and "m * 2 ^ e < 2 ^ 2098"
  shows "is_double (m * 2 ^ e)"
proof -
  have "bit_length m \<le> 53" using assms(2) by (simp only: bit_length_le_iff)
  then have "bit_length (m * 2 ^ e) - 53 \<le> e"
    using bit_length_mult_pow [OF assms(1), of e] by simp
  then have "(2::int) ^ (bit_length (m * 2 ^ e) - 53) dvd 2 ^ e"
    by (rule le_imp_power_dvd)
  then have "2 ^ (bit_length (m * 2 ^ e) - 53) dvd m * 2 ^ e"
    by (rule dvd_mult)
  moreover have "0 \<le> m * 2 ^ e" using assms(1) by simp
  ultimately show ?thesis using assms(3) by (simp add: is_double_def)
qed

lemma calculate_fare_int: "calculate_fare rt (PyInt i) = PyInt (rate rt * i)"
  by (cases rt) simp_all

lemma calculate_fare_float:
  "calculate_fare rt (PyFloat (Finite s m)) =
     PyFloat (if round53 (rate rt * m) < 2 ^ 2098 then Finite s (round53 (rate rt * m))
              else Infinity s)"
  by (cases rt) (simp_all add: float_mul_int_def Let_def mult.commute not_le)

lemma calculate_fare_special:
  "calculate_fare rt (PyFloat NaN) = PyFloat NaN"
  "calculate_fare rt (PyFloat (Infinity s)) = PyFloat (Infinity s)"
  by (cases rt; simp add: float_mul_int_def)+

lemma bit_length_54: "bit_length 9007199254740993 = 54"
proof -
  have "bit_length 9007199254740993 = Suc 53" by (rule bit_length_eq) simp_all
  then show ?thesis by simp
qed

lemma round53_54: "round53 9007199254740993 = 9007199254740992"
  using round53_unfold [of 9007199254740993] by (simp add: bit_length_54)

lemma bit_length_55: "bit_length 18014398509481985 = 55"
proof -
  have "bit_length 18014398509481985 = Suc 54" by (rule bit_length_eq) simp_all
  then show ?thesis by simp
qed

lemma round53_55: "round53 18014398509481985 = 18014398509481984"
  using round53_unfold [of 18014398509481985] by (simp add: bit_length_55)

text \<open>
  Claim C2, as the code has it. For every \<^verbatim>\<open>int\<close> distance the Economy, Luxury and Pool
  fares are exactly 5, 10 and 3 times the distance. For a finite \<^verbatim>\<open>float\<close> distance the
  fare is the rate times the distance rounded to a double: it is exactly the product if
  and only if the product is itself a double, and otherwise a double within half a unit
  in the last place of the product, or an infinity of the same sign beyond the range of
  doubles. Nothing else is applied: no minimum fare and no surcharge.
\<close>

theorem calculate_fare_product:
  "calculate_fare EconomyRide (PyInt i) = PyInt (5 * i) \<and>
   calculate_fare LuxuryRide (PyInt i) = PyInt (10 * i) \<and>
   calculate_fare PoolRide (PyInt i) = PyInt (3 * i) \<and>
   (is_double (rate rt * m) \<longrightarrow>
      calculate_fare rt (PyFloat (Finite s m)) = PyFloat (Finite s (rate rt * m))) \<and>
   (0 \<le> m \<longrightarrow>
      (calculate_fare rt (PyFloat (Finite s m)) = PyFloat (Finite s (rate rt * m)) \<longleftrightarrow>
         is_double (rate rt * m)) \<and>
      (\<exists>v. calculate_fare rt (PyFloat (Finite s m)) =
              PyFloat (if v < 2 ^ 2098 then Finite s v else Infinity s) \<and>
           (v < 2 ^ 2098 \<longrightarrow> is_double v) \<and>
           2 * \<bar>v - rate rt * m\<bar> \<le> 2 ^ (bit_length (rate rt * m) - 53)))"
proof -
  have exact: "calculate_fare rt (PyFloat (Finite s m)) = PyFloat (Finite s (rate rt * m))"
    if "is_double (rate rt * m)"
  proof -
    from that have "round53 (rate rt * m) = rate rt * m"
      by (simp add: is_double_def round53_exact)
    with that show ?thesis
      by (simp add: calculate_fare_float is_double_def)
  qed
  have general: "(calculate_fare rt (PyFloat (Finite s m)) = PyFloat (Finite s (rate rt * m)) \<longleftrightarrow>
         is_double (rate rt * m)) \<and>
      (\<exists>v. calculate_fare rt (PyFloat (Finite s m)) =
              PyFloat (if v < 2 ^ 2098 then Finite s v else Infinity s) \<and>
           (v < 2 ^ 2098 \<longrightarrow> is_double v) \<and>
           2 * \<bar>v - rate rt * m\<bar> \<le> 2 ^ (bit_length (rate rt * m) - 53))"
    if m: "0 \<le> m"
  proof -
    have "0 \<le> rate rt" by (cases rt) simp_all
    with m have n: "0 \<le> rate rt * m" by simp
    have dbl: "is_double (round53 (rate rt * m))" if "round53 (rate rt * m) < 2 ^ 2098"
      using n that by (rule is_double_round53)
    have "is_double (rate rt * m)"
      if "calculate_fare rt (PyFloat (Finite s m)) = PyFloat (Finite s (rate rt * m))"
    proof -
      from that have "round53 (rate rt * m) < 2 ^ 2098 \<and> round53 (rate rt * m) = rate rt * m"
        by (simp add: calculate_fare_float split: if_splits)
      with dbl show ?thesis by simp
    qed
    with exact have iff: "calculate_fare rt (PyFloat (Finite s m)) =
        PyFloat (Finite s (rate rt * m)) \<longleftrightarrow> is_double (rate rt * m)"
      by blast
    have "calculate_fare rt (PyFloat (Finite s m)) =
              PyFloat (if round53 (rate rt * m) < 2 ^ 2098
                       then Finite s (round53 (rate rt * m)) else Infinity s) \<and>
           (round53 (rate rt * m) < 2 ^ 2098 \<longrightarrow> is_double (round53 (rate rt * m))) \<and>
           2 * \<bar>round53 (rate rt * m) - rate rt * m\<bar> \<le> 2 ^ (bit_length (rate rt * m) - 53)"
      using dbl round53_bound [OF n] by (simp add: calculate_fare_float)
    then have "\<exists>v. calculate_fare rt (PyFloat (Finite s m)) =
              PyFloat (if v < 2 ^ 2098 then Finite s v else Infinity s) \<and>
           (v < 2 ^ 2098 \<longrightarrow> is_double v) \<and>
           2 * \<bar>v - rate rt * m\<bar> \<le> 2 ^ (bit_length (rate rt * m) - 53)"
      by (rule exI)
    with iff show ?thesis by blast
  qed
  show ?thesis
    using exact general by (simp add: calculate_fare_int [of EconomyRide, simplified]
      calculate_fare_int [of LuxuryRide, simplified] calculate_fare_int [of PoolRide, simplified])
qed

theorem calculate_fare_product_witness:
  "calculate_fare EconomyRide (PyInt 15) = PyInt 75 \<and>
   calculate_fare LuxuryRide (PyInt 10) = PyInt 100 \<and>
   calculate_fare PoolRide (PyInt 5) = PyInt 15 \<and>
   is_double (rate EconomyRide * (15 * 2 ^ 1074)) \<and>
   calculate_fare EconomyRide (PyFloat (Finite False (15 * 2 ^ 1074))) =
     PyFloat (Finite False (75 * 2 ^ 1074)) \<and>
   (0::int) \<le> 3602879701896397 * 2 ^ 1019 \<and>
   calculate_fare EconomyRide (PyFloat (Finite False (3602879701896397 * 2 ^ 1019))) =
     PyFloat (Finite False (2 ^ 1073)) \<and>
   \<not> is_double (rate EconomyRide * (3602879701896397 * 2 ^ 1019))"
proof -
  have e: "rate EconomyRide * (15 * 2 ^ 1074) = 75 * 2 ^ 1074" by simp
  have "is_double (75 * 2 ^ 1074)" by (rule is_double_scaled) simp_all
  then have dbl: "is_double (rate EconomyRide * (15 * 2 ^ 1074))" by (simp only: e)
  have pos: "(0::int) \<le> 3602879701896397 * 2 ^ 1019" by simp
  have a: "rate EconomyRide * (3602879701896397 * 2 ^ 1019) = 18014398509481985 * 2 ^ 1019"
    by simp
  have b: "round53 (18014398509481985 * 2 ^ 1019) = round53 18014398509481985 * 2 ^ 1019"
    by (rule round53_scale) (simp add: bit_length_55)
  have c: "(18014398509481984::int) * 2 ^ 1019 = 2 ^ 1073" by simp
  have d: "(2::int) ^ 1073 < 2 ^ 2098" by simp
  have tenth: "calculate_fare EconomyRide (PyFloat (Finite False (3602879701896397 * 2 ^ 1019))) =
     PyFloat (Finite False (2 ^ 1073))"
    by (simp only: calculate_fare_float a b round53_55 c d if_True)
  have ne: "PyFloat (Finite False (2 ^ 1073)) \<noteq>
            PyFloat (Finite False (rate EconomyRide * (3602879701896397 * 2 ^ 1019)))"
    by simp
  have ints: "calculate_fare EconomyRide (PyInt 15) = PyInt 75"
    "calculate_fare LuxuryRide (PyInt 10) = PyInt 100"
    "calculate_fare PoolRide (PyInt 5) = PyInt 15"
    using calculate_fare_product [of 15 EconomyRide 0 False]
      calculate_fare_product [of 10 EconomyRide 0 False]
      calculate_fare_product [of 5 EconomyRide 0 False]
    by simp_all
  have exact: "calculate_fare EconomyRide (PyFloat (Finite False (15 * 2 ^ 1074))) =
     PyFloat (Finite False (75 * 2 ^ 1074))"
    using calculate_fare_product [of 15 EconomyRide "15 * 2 ^ 1074" False] dbl
    by (simp only: e)
  have "\<not> is_double (rate EconomyRide * (3602879701896397 * 2 ^ 1019))"
    using calculate_fare_product [of 15 EconomyRide "3602879701896397 * 2 ^ 1019" False]
      pos tenth ne
    by (simp only: ) blast
  with ints dbl exact pos tenth show ?thesis by (intro conjI)
qed

text \<open>
  Claim C2 as stated, exactness for every distance \<open>d \<ge> 0\<close>, fails on a
  \<^verbatim>\<open>float\<close>: the Pool fare of \<open>3002399751580331.0\<close> is \<open>9007199254740992.0\<close>, while
  three times the distance is \<open>9007199254740993\<close>, which is not a double.
\<close>

theorem calculate_fare_float_rounds:
  "nonneg (PyFloat (Finite False (3002399751580331 * 2 ^ 1074))) \<and>
   is_double (3002399751580331 * 2 ^ 1074) \<and>
   calculate_fare PoolRide (PyFloat (Finite False (3002399751580331 * 2 ^ 1074))) =
     PyFloat (Finite False (9007199254740992 * 2 ^ 1074)) \<and>
   \<not> exactly_times 3 (PyFloat (Finite False (3002399751580331 * 2 ^ 1074)))
        (calculate_fare PoolRide (PyFloat (Finite False (3002399751580331 * 2 ^ 1074))))"
proof -
  have dbl: "is_double (3002399751580331 * 2 ^ 1074)"
    by (rule is_double_scaled) simp_all
  have a: "rate PoolRide * (3002399751580331 * 2 ^ 1074) = 9007199254740993 * 2 ^ 1074"
    by simp
  have b: "round53 (9007199254740993 * 2 ^ 1074) = round53 9007199254740993 * 2 ^ 1074"
    by (rule round53_scale) (simp add: bit_length_54)
  have c: "(9007199254740992::int) * 2 ^ 1074 < 2 ^ 2098" by simp
  have fare: "calculate_fare PoolRide (PyFloat (Finite False (3002399751580331 * 2 ^ 1074))) =
     PyFloat (Finite False (9007199254740992 * 2 ^ 1074))"
    by (simp only: calculate_fare_float a b round53_54 c if_True)
  have ne: "(9007199254740992::int) * 2 ^ 1074 \<noteq> 3 * (3002399751580331 * 2 ^ 1074)"
    by simp
  have ex0: "\<not> exactly_times 3 (PyFloat (Finite False (3002399751580331 * 2 ^ 1074)))
        (PyFloat (Finite False (9007199254740992 * 2 ^ 1074)))"
    using ne by (simp add: exactly_times_def)
  have ex: "\<not> exactly_times 3 (PyFloat (Finite False (3002399751580331 * 2 ^ 1074)))
        (calculate_fare PoolRide (PyFloat (Finite False (3002399751580331 * 2 ^ 1074))))"
    unfolding fare by (fact ex0)
  have nn: "nonneg (PyFloat (Finite False (3002399751580331 * 2 ^ 1074)))"
    by simp
  from nn dbl fare ex show ?thesis by (intro conjI)
qed

section \<open>The factory\<close>

lemma lower_char_eq_iff:
  assumes "CHR ''a'' \<le> a" and "a \<le> CHR ''z''"
  shows "lower_char b = a \<longleftrightarrow> same_letter a b"
proof -
  have a: "97 \<le> (of_char a :: nat)" "(of_char a :: nat) \<le> 122"
    using assms by (simp_all add: less_eq_char_def)
  have b: "(of_char b :: nat) < 256" by simp
  show ?thesis
  proof (cases "CHR ''A'' \<le> b \<and> b \<le> CHR ''Z''")
    case True
    then have r: "65 \<le> (of_char b :: nat)" "(of_char b :: nat) \<le> 90"
      by (simp_all add: less_eq_char_def)
    have "lower_char b = char_of (of_char b + (32::nat))"
      using True by (simp add: lower_char_def)
    moreover have "(char_of (of_char b + (32::nat)) = a) = (of_char b + (32::nat) = of_char a)"
    proof
      assume "char_of (of_char b + (32::nat)) = a"
      then have "(of_char (char_of (of_char b + (32::nat))) :: nat) = of_char a" by simp
      then show "of_char b + (32::nat) = of_char a" using r by simp
    next
      assume "of_char b + (32::nat) = of_char a"
      then show "char_of (of_char b + (32::nat)) = a" by simp
    qed
    moreover have "b \<noteq> a" using r a by auto
    ultimately show ?thesis using assms by (simp add: same_letter_def)
  next
    case False
    then have "lower_char b = b" by (simp only: lower_char_def if_False)
    moreover have "of_char b + (32::nat) \<noteq> of_char a"
      using False a b by (auto simp: less_eq_char_def)
    ultimately show ?thesis by (auto simp: same_letter_def)
  qed
qed

lemma lower_eq_iff:
  "list_all (\<lambda>a. CHR ''a'' \<le> a \<and> a \<le> CHR ''z'') w \<Longrightarrow> lower s = w \<longleftrightarrow> casing_of w s"
proof (induction w arbitrary: s)
  case Nil
  then show ?case by (simp add: lower_def casing_of_def)
next
  case (Cons a w)
  show ?case
  proof (cases s)
    case Nil
    then show ?thesis by (simp add: lower_def casing_of_def)
  next
    case (Cons b t)
    have "lower_char b = a \<longleftrightarrow> same_letter a b"
      using Cons.prems by (simp add: lower_char_eq_iff)
    moreover have "lower t = w \<longleftrightarrow> casing_of w t"
      using Cons.IH Cons.prems by simp
    ultimately show ?thesis
      using Cons by (simp add: lower_def casing_of_def)
  qed
qed

lemma lower_economy: "lower s = ''economy'' \<longleftrightarrow> casing_of ''economy'' s"
  by (rule lower_eq_iff) simp

lemma lower_luxury: "lower s = ''luxury'' \<longleftrightarrow> casing_of ''luxury'' s"
  by (rule lower_eq_iff) simp

lemma lower_pool: "lower s = ''pool'' \<longleftrightarrow> casing_of ''pool'' s"
  by (rule lower_eq_iff) simp

lemma create_ride_type_unfold:
  "create_ride_type s =
     (if lower s = ''economy'' then Inr EconomyRide
      else if lower s = ''luxury'' then Inr LuxuryRide
      else if lower s = ''pool'' then Inr PoolRide
      else Inl (ValueError (''Invalid ride type: '' @ s)))"
  by (simp add: create_ride_type_def ride_types_def Let_def)

lemma create_ride_type_recognized:
  "recognized s \<longleftrightarrow> (\<exists>rt. create_ride_type s = Inr rt)"
  by (auto simp add: create_ride_type_unfold recognized_def
        lower_economy lower_luxury lower_pool)

lemma create_ride_type_unrecognized:
  "\<not> recognized s \<Longrightarrow> create_ride_type s = Inl (ValueError (''Invalid ride type: '' @ s))"
  by (simp add: create_ride_type_unfold recognized_def lower_economy lower_luxury lower_pool)

text \<open>
  Claim C3. The factory resolves its input without regard to case: every casing of
  \<open>economy\<close>, \<open>luxury\<close> or \<open>pool\<close> yields the corresponding policy, and every other string
  fails with the \<^verbatim>\<open>ValueError\<close> whose message is \<open>Invalid ride type: \<close> followed by the
  input exactly as it was given.
\<close>

theorem create_ride_type_case_insensitive:
  "(casing_of ''economy'' s \<longrightarrow> create_ride_type s = Inr EconomyRide) \<and>
   (casing_of ''luxury'' s \<longrightarrow> create_ride_type s = Inr LuxuryRide) \<and>
   (casing_of ''pool'' s \<longrightarrow> create_ride_type s = Inr PoolRide) \<and>
   (\<not> casing_of ''economy'' s \<and> \<not> casing_of ''luxury'' s \<and> \<not> casing_of ''pool'' s \<longrightarrow>
      create_ride_type s = Inl (ValueError (''Invalid ride type: '' @ s)))"
  by (simp add: create_ride_type_unfold flip: lower_economy lower_luxury lower_pool)

theorem create_ride_type_case_insensitive_witness:
  "casing_of ''economy'' ''ECONOMY'' \<and> create_ride_type ''ECONOMY'' = Inr EconomyRide \<and>
   casing_of ''luxury'' ''LuXury'' \<and> create_ride_type ''LuXury'' = Inr LuxuryRide \<and>
   casing_of ''pool'' ''pool'' \<and> create_ride_type ''pool'' = Inr PoolRide \<and>
   \<not> casing_of ''economy'' ''Premium'' \<and> \<not> casing_of ''luxury'' ''Premium'' \<and>
   \<not> casing_of ''pool'' ''Premium'' \<and>
   create_ride_type ''Premium'' = Inl (ValueError ''Invalid ride type: Premium'')"
proof -
  have e: "casing_of ''economy'' ''ECONOMY''"
    and l: "casing_of ''luxury'' ''LuXury''"
    and p: "casing_of ''pool'' ''pool''"
    and n: "\<not> casing_of ''economy'' ''Premium''" "\<not> casing_of ''luxury'' ''Premium''"
      "\<not> casing_of ''pool'' ''Premium''"
    by (simp_all add: casing_of_def same_letter_def)
  show ?thesis
    using e l p n
      create_ride_type_case_insensitive [of "''ECONOMY''"]
      create_ride_type_case_insensitive [of "''LuXury''"]
      create_ride_type_case_insensitive [of "''pool''"]
      create_ride_type_case_insensitive [of "''Premium''"]
    by simp
qed

section \<open>The driver registry\<close>

lemma scan_drivers_None:
  "scan_drivers ds h = None \<longleftrightarrow> (\<forall>d\<in>set ds. status (driver_objs h ! d) \<noteq> AVAILABLE)"
  by (induction ds) (auto simp: is_available_def)

lemma scan_drivers_Some:
  "scan_drivers ds h = Some d \<longleftrightarrow>
     (\<exists>i<length ds. ds ! i = d \<and> status (driver_objs h ! d) = AVAILABLE \<and>
        (\<forall>j<i. status (driver_objs h ! (ds ! j)) \<noteq> AVAILABLE))"
proof (induction ds)
  case Nil
  then show ?case by simp
next
  case (Cons x xs)
  show ?case
  proof (cases "status (driver_objs h ! x) = AVAILABLE")
    case True
    have "(\<exists>i<length (x # xs). (x # xs) ! i = d \<and> status (driver_objs h ! d) = AVAILABLE \<and>
            (\<forall>j<i. status (driver_objs h ! ((x # xs) ! j)) \<noteq> AVAILABLE)) \<longleftrightarrow> x = d"
    proof
      assume "\<exists>i<length (x # xs). (x # xs) ! i = d \<and> status (driver_objs h ! d) = AVAILABLE \<and>
            (\<forall>j<i. status (driver_objs h ! ((x # xs) ! j)) \<noteq> AVAILABLE)"
      then obtain i where i: "i < length (x # xs)" "(x # xs) ! i = d"
        "\<forall>j<i. status (driver_objs h ! ((x # xs) ! j)) \<noteq> AVAILABLE" by blast
      have "i = 0"
      proof (rule ccontr)
        assume "i \<noteq> 0"
        then have "0 < i" by simp
        with i(3) have "status (driver_objs h ! ((x # xs) ! 0)) \<noteq> AVAILABLE" by blast
        with True show False by simp
      qed
      with i(2) show "x = d" by simp
    next
      assume "x = d"
      with True show "\<exists>i<length (x # xs). (x # xs) ! i = d \<and>
            status (driver_objs h ! d) = AVAILABLE \<and>
            (\<forall>j<i. status (driver_objs h ! ((x # xs) ! j)) \<noteq> AVAILABLE)"
        by (intro exI [of _ 0]) simp
    qed
    with True show ?thesis by (simp add: is_available_def)
  next
    case False
    have "(\<exists>i<length (x # xs). (x # xs) ! i = d \<and> status (driver_objs h ! d) = AVAILABLE \<and>
            (\<forall>j<i. status (driver_objs h ! ((x # xs) ! j)) \<noteq> AVAILABLE)) \<longleftrightarrow>
          (\<exists>i<length xs. xs ! i = d \<and> status (driver_objs h ! d) = AVAILABLE \<and>
            (\<forall>j<i. status (driver_objs h ! (xs ! j)) \<noteq> AVAILABLE))" (is "?L \<longleftrightarrow> ?R")
    proof
      assume ?L
      then obtain i where i: "i < length (x # xs)" "(x # xs) ! i = d"
        "status (driver_objs h ! d) = AVAILABLE"
        "\<forall>j<i. status (driver_objs h ! ((x # xs) ! j)) \<noteq> AVAILABLE" by blast
      from i(2,3) False have "i \<noteq> 0" by (cases i) auto
      then obtain k where k: "i = Suc k" by (cases i) auto
      have "\<forall>j<k. status (driver_objs h ! (xs ! j)) \<noteq> AVAILABLE"
      proof (intro allI impI)
        fix j assume "j < k"
        then have "Suc j < i" using k by simp
        with i(4) have "status (driver_objs h ! ((x # xs) ! Suc j)) \<noteq> AVAILABLE" by blast
        then show "status (driver_objs h ! (xs ! j)) \<noteq> AVAILABLE" by simp
      qed
      with i k show ?R by (intro exI [of _ k]) simp
    next
      assume ?R
      then obtain k where k: "k < length xs" "xs ! k = d"
        "status (driver_objs h ! d) = AVAILABLE"
        "\<forall>j<k. status (driver_objs h ! (xs ! j)) \<noteq> AVAILABLE" by blast
      have "\<forall>j<Suc k. status (driver_objs h ! ((x # xs) ! j)) \<noteq> AVAILABLE"
      proof (intro allI impI)
        fix j assume j: "j < Suc k"
        show "status (driver_objs h ! ((x # xs) ! j)) \<noteq> AVAILABLE"
        proof (cases j)
          case 0
          with False show ?thesis by simp
        next
          case (Suc m)
          with j k(4) show ?thesis by simp
        qed
      qed
      with k show ?L by (intro exI [of _ "Suc k"]) simp
    qed
    with False Cons.IH show ?thesis by (simp add: is_available_def)
  qed
qed

text \<open>
  Claim C6. \<^verbatim>\<open>get_available_driver\<close> returns absent exactly when no registered driver is
  Available, and returns a driver exactly when that driver is the first one, in
  registration order, whose status is Available.
\<close>

theorem get_available_driver_first:
  "(get_available_driver dm h = None \<longleftrightarrow>
      (\<forall>d\<in>set (drivers dm). status (driver_objs h ! d) \<noteq> AVAILABLE)) \<and>
   (get_available_driver dm h = Some d \<longleftrightarrow>
      (\<exists>i<length (drivers dm). drivers dm ! i = d \<and>
         status (driver_objs h ! d) = AVAILABLE \<and>
         (\<forall>j<i. status (driver_objs h ! (drivers dm ! j)) \<noteq> AVAILABLE)))"
  unfolding get_available_driver_def
  using scan_drivers_None [of "drivers dm" h] scan_drivers_Some [of "drivers dm" h d]
  by blast

theorem get_available_driver_first_witness:
  "drivers two_drivers = [0, 1] \<and>
   status (driver_objs heap_all_booked ! 0) = OCCUPIED \<and>
   status (driver_objs heap_all_booked ! 1) = OCCUPIED \<and>
   get_available_driver two_drivers heap_all_booked = None \<and>
   (\<exists>i<length (drivers two_drivers). drivers two_drivers ! i = 1 \<and>
      status (driver_objs heap_one_booked ! 1) = AVAILABLE \<and>
      (\<forall>j<i. status (driver_objs heap_one_booked ! (drivers two_drivers ! j)) \<noteq> AVAILABLE)) \<and>
   get_available_driver two_drivers heap_one_booked = Some 1"
proof -
  have none: "\<forall>d\<in>set (drivers two_drivers). status (driver_objs heap_all_booked ! d) \<noteq> AVAILABLE"
    by (simp add: two_drivers_def heap_all_booked_def)
  have "1 < length (drivers two_drivers) \<and> drivers two_drivers ! 1 = 1 \<and>
      status (driver_objs heap_one_booked ! 1) = AVAILABLE \<and>
      (\<forall>j<1. status (driver_objs heap_one_booked ! (drivers two_drivers ! j)) \<noteq> AVAILABLE)"
    by (simp add: two_drivers_def heap_one_booked_def)
  then have first: "\<exists>i<length (drivers two_drivers). drivers two_drivers ! i = 1 \<and>
      status (driver_objs heap_one_booked ! 1) = AVAILABLE \<and>
      (\<forall>j<i. status (driver_objs heap_one_booked ! (drivers two_drivers ! j)) \<noteq> AVAILABLE)"
    by (rule exI [of _ 1])
  have occupied: "drivers two_drivers = [0, 1]"
    "status (driver_objs heap_all_booked ! 0) = OCCUPIED"
    "status (driver_objs heap_all_booked ! 1) = OCCUPIED"
    by (simp_all add: two_drivers_def heap_all_booked_def)
  show ?thesis
    using none first occupied
      get_available_driver_first [of two_drivers heap_all_booked 1]
      get_available_driver_first [of two_drivers heap_one_booked 1]
    by blast
qed

section \<open>Drivers\<close>

text \<open>
  Claim C8. \<^verbatim>\<open>assign_ride\<close> on a driver that is Occupied raises the \<^verbatim>\<open>ValueError\<close>
  \<open>Driver <name> is not available\<close> and leaves the whole store, so the driver's status
  and current ride, as it was; on a driver that is Available it makes the driver
  Occupied, stores the ride reference, and changes nothing else.
\<close>

theorem assign_ride_cases:
  assumes "d < length (driver_objs h)"
  shows "(status (driver_objs h ! d) = OCCUPIED \<longrightarrow>
            assign_ride d r h =
              (Inl (ValueError (''Driver '' @ Driver.name (driver_objs h ! d) @
                                '' is not available'')), h)) \<and>
         (status (driver_objs h ! d) = AVAILABLE \<longrightarrow>
            (\<exists>h'. assign_ride d r h = (Inr (), h') \<and>
                  status (driver_objs h' ! d) = OCCUPIED \<and>
                  current_ride (driver_objs h' ! d) = Some r \<and>
                  Driver.name (driver_objs h' ! d) = Driver.name (driver_objs h ! d) \<and>
                  length (driver_objs h') = length (driver_objs h) \<and>
                  (\<forall>d'. d' \<noteq> d \<longrightarrow> driver_objs h' ! d' = driver_objs h ! d') \<and>
                  customer_objs h' = customer_objs h \<and>
                  ride_objs h' = ride_objs h \<and>
                  stdout h' = stdout h))"
  using assms by (simp add: assign_ride_def is_available_def Let_def)

theorem assign_ride_cases_witness:
  "0 < length (driver_objs heap_ride_pending) \<and>
   status (driver_objs heap_ride_pending ! 0) = OCCUPIED \<and>
   assign_ride 0 1 heap_ride_pending =
     (Inl (ValueError ''Driver Alice is not available''), heap_ride_pending) \<and>
   1 < length (driver_objs heap_ride_pending) \<and>
   status (driver_objs heap_ride_pending ! 1) = AVAILABLE \<and>
   (\<exists>h'. assign_ride 1 1 heap_ride_pending = (Inr (), h') \<and>
         status (driver_objs h' ! 1) = OCCUPIED \<and>
         current_ride (driver_objs h' ! 1) = Some 1 \<and>
         driver_objs h' ! 0 = driver_objs heap_ride_pending ! 0)"
proof -
  have a: "0 < length (driver_objs heap_ride_pending)"
    and b: "1 < length (driver_objs heap_ride_pending)"
    and c: "status (driver_objs heap_ride_pending ! 0) = OCCUPIED"
    and d: "status (driver_objs heap_ride_pending ! 1) = AVAILABLE"
    and e: "Driver.name (driver_objs heap_ride_pending ! 0) = ''Alice''"
    by (simp_all add: heap_ride_pending_def heap_one_booked_def)
  show ?thesis
    using a b c d e assign_ride_cases [OF a, of 1] assign_ride_cases [OF b, of 1]
    by auto
qed

text \<open>
  Claim C10. For a driver with an assigned ride, \<^verbatim>\<open>complete_ride\<close> resets only that
  driver (status Available, no current ride, same name); every other driver, every
  customer, the output and every ride are as before, so the ride still refers to the
  driver and is still confirmed.
\<close>

theorem complete_ride_frame:
  assumes "d < length (driver_objs h)"
    and "current_ride (driver_objs h ! d) = Some r"
    and "driver (ride_objs h ! r) = Some d"
    and "is_confirmed (ride_objs h ! r)"
  shows "status (driver_objs (complete_ride d h) ! d) = AVAILABLE \<and>
         current_ride (driver_objs (complete_ride d h) ! d) = None \<and>
         Driver.name (driver_objs (complete_ride d h) ! d) = Driver.name (driver_objs h ! d) \<and>
         length (driver_objs (complete_ride d h)) = length (driver_objs h) \<and>
         (\<forall>d'. d' \<noteq> d \<longrightarrow> driver_objs (complete_ride d h) ! d' = driver_objs h ! d') \<and>
         customer_objs (complete_ride d h) = customer_objs h \<and>
         stdout (complete_ride d h) = stdout h \<and>
         ride_objs (complete_ride d h) = ride_objs h \<and>
         driver (ride_objs (complete_ride d h) ! r) = Some d \<and>
         is_confirmed (ride_objs (complete_ride d h) ! r)"
  using assms by (simp add: complete_ride_def)

theorem complete_ride_frame_witness:
  "0 < length (driver_objs heap_one_booked) \<and>
   current_ride (driver_objs heap_one_booked ! 0) = Some 0 \<and>
   driver (ride_objs heap_one_booked ! 0) = Some 0 \<and>
   is_confirmed (ride_objs heap_one_booked ! 0) \<and>
   status (driver_objs (complete_ride 0 heap_one_booked) ! 0) = AVAILABLE \<and>
   current_ride (driver_objs (complete_ride 0 heap_one_booked) ! 0) = None \<and>
   ride_objs (complete_ride 0 heap_one_booked) = [ride_john] \<and>
   driver (ride_objs (complete_ride 0 heap_one_booked) ! 0) = Some 0 \<and>
   is_confirmed (ride_objs (complete_ride 0 heap_one_booked) ! 0)"
proof -
  have a: "0 < length (driver_objs heap_one_booked)"
    and b: "current_ride (driver_objs heap_one_booked ! 0) = Some 0"
    and c: "driver (ride_objs heap_one_booked ! 0) = Some 0"
    and d: "is_confirmed (ride_objs heap_one_booked ! 0)"
    by (simp_all add: heap_one_booked_def ride_john_def)
  have e: "ride_objs heap_one_booked = [ride_john]"
    by (simp add: heap_one_booked_def)
  show ?thesis
    using a b c d e complete_ride_frame [OF a b c d] by simp
qed

section \<open>Rides\<close>

text \<open>
  A ride satisfies its invariant when constructed, and \<^verbatim>\<open>assign_driver\<close> with a driver
  that is Available succeeds and keeps it.
\<close>

lemma Ride_init_invariant:
  "ride_invariant (ride_objs (snd (Ride_init c p q dist rt h)) ! fst (Ride_init c p q dist rt h))"
  by (simp add: Ride_init_def ride_invariant_def)

lemma assign_driver_available_invariant:
  assumes "r < length (ride_objs h)" and "d < length (driver_objs h)"
    and "status (driver_objs h ! d) = AVAILABLE"
  shows "fst (assign_driver r d h) = Inr () \<and>
         ride_invariant (ride_objs (snd (assign_driver r d h)) ! r)"
  using assms
  by (simp add: assign_driver_def assign_ride_def is_available_def Let_def ride_invariant_def)

text \<open>
  Claim C7. The invariant "confirmed iff a driver is set" does not survive
  \<^verbatim>\<open>assign_driver\<close> with a driver that is Occupied. After John's booking Alice
  (reference 0) is Occupied. A ride constructed for Rebecca (reference 1) satisfies the
  invariant; \<^verbatim>\<open>assign_driver\<close> with Alice writes the ride's driver field, Alice's
  \<^verbatim>\<open>assign_ride\<close> raises, and the ride is left with a driver and unconfirmed.
\<close>

theorem assign_driver_occupied_breaks_invariant:
  "Ride_init 1 ''College'' ''Downtown'' (PyInt 10) LuxuryRide heap_one_booked = (1, heap_ride_pending) \<and>
   ride_invariant (ride_objs heap_ride_pending ! 1) \<and>
   status (driver_objs heap_ride_pending ! 0) = OCCUPIED \<and>
   assign_driver 1 0 heap_ride_pending =
     (Inl (ValueError ''Driver Alice is not available''),
      heap_ride_pending\<lparr>ride_objs := [ride_john, ride_rebecca_new\<lparr>driver := Some 0\<rparr>]\<rparr>) \<and>
   driver (ride_objs (snd (assign_driver 1 0 heap_ride_pending)) ! 1) = Some 0 \<and>
   \<not> is_confirmed (ride_objs (snd (assign_driver 1 0 heap_ride_pending)) ! 1) \<and>
   \<not> ride_invariant (ride_objs (snd (assign_driver 1 0 heap_ride_pending)) ! 1)"
  by (simp add: Ride_init_def assign_driver_def assign_ride_def is_available_def Let_def
        ride_invariant_def heap_ride_pending_def heap_one_booked_def ride_rebecca_new_def)

section \<open>The booking service\<close>

lemma scan_drivers_heap:
  "driver_objs h' = driver_objs h \<Longrightarrow> scan_drivers ds h' = scan_drivers ds h"
  by (induction ds) simp_all

lemma get_available_driver_Ride_init:
  "get_available_driver dm (snd (Ride_init c p q dist rt h)) = get_available_driver dm h"
  unfolding get_available_driver_def
  by (rule scan_drivers_heap) (simp add: Ride_init_def)

lemma scan_drivers_Some_available:
  "scan_drivers ds h = Some d \<Longrightarrow> d \<in> set ds \<and> is_available (driver_objs h ! d)"
  by (induction ds) (auto split: if_splits)

lemma get_available_driver_Some_available:
  "get_available_driver dm h = Some d \<Longrightarrow> d \<in> set (drivers dm) \<and> is_available (driver_objs h ! d)"
  unfolding get_available_driver_def by (rule scan_drivers_Some_available)

lemma book_ride_invalid:
  assumes "create_ride_type cat = Inl e"
  shows "book_ride dm c p q dist cat h = (None, print (''Error booking ride: '' @ str e) h)"
  using assms by (simp add: book_ride_def)

lemma book_ride_none:
  assumes "create_ride_type cat = Inr rt" and "get_available_driver dm h = None"
  shows "book_ride dm c p q dist cat h =
           (None, h\<lparr>ride_objs := ride_objs h @
              [\<lparr>customer = c, pickup_location = p, dropoff_location = q,
                distance = dist, ride_type = rt, fare = calculate_fare rt dist,
                driver = None, is_confirmed = False\<rparr>]\<rparr>)"
proof -
  have "get_available_driver dm (snd (Ride_init c p q dist rt h)) = None"
    using assms(2) by (simp only: get_available_driver_Ride_init)
  then show ?thesis
    using assms(1) by (simp add: book_ride_def Ride_init_def)
qed

lemma book_ride_found:
  assumes "create_ride_type cat = Inr rt" and "get_available_driver dm h = Some d"
  shows "book_ride dm c p q dist cat h =
           (Some (length (ride_objs h)),
            h\<lparr>driver_objs := (driver_objs h)
                 [d := (driver_objs h ! d)
                    \<lparr>status := OCCUPIED, current_ride := Some (length (ride_objs h))\<rparr>],
              customer_objs := (customer_objs h)
                 [c := (customer_objs h ! c)
                    \<lparr>ride_history := ride_history (customer_objs h ! c) @
                                       [length (ride_objs h)]\<rparr>],
              ride_objs := ride_objs h @
                 [\<lparr>customer = c, pickup_location = p, dropoff_location = q,
                   distance = dist, ride_type = rt, fare = calculate_fare rt dist,
                   driver = Some d, is_confirmed = True\<rparr>]\<rparr>)"
proof -
  have av: "is_available (driver_objs h ! d)"
    using assms(2) by (simp add: get_available_driver_Some_available)
  have "get_available_driver dm (snd (Ride_init c p q dist rt h)) = Some d"
    using assms(2) by (simp only: get_available_driver_Ride_init)
  then show ?thesis
    using assms(1) av
    by (simp add: book_ride_def Ride_init_def assign_driver_def assign_ride_def Let_def)
qed

lemma wf_heap_driver:
  "wf_heap dm h \<Longrightarrow> d \<in> set (drivers dm) \<Longrightarrow> d < length (driver_objs h)"
  by (simp add: wf_heap_def list_all_iff)

lemma wf_heap_history:
  "wf_heap dm h \<Longrightarrow> cu \<in> set (customer_objs h) \<Longrightarrow> r \<in> set (ride_history cu) \<Longrightarrow>
     r < length (ride_objs h)"
  by (simp add: wf_heap_def list_all_iff)

lemma wf_heap_current_ride:
  "wf_heap dm h \<Longrightarrow> dr \<in> set (driver_objs h) \<Longrightarrow> current_ride dr = Some r \<Longrightarrow>
     r < length (ride_objs h)"
  by (auto simp add: wf_heap_def list_all_iff split: option.splits)

text \<open>
  Booking keeps the store well-formed and keeps the invariant of every ride: the service
  only hands \<^verbatim>\<open>assign_driver\<close> a driver that the registry has just found Available.
\<close>

lemma book_ride_cases:
  "(\<exists>e. create_ride_type cat = Inl e) \<or>
   (\<exists>rt. create_ride_type cat = Inr rt \<and> get_available_driver dm h = None) \<or>
   (\<exists>rt d. create_ride_type cat = Inr rt \<and> get_available_driver dm h = Some d)"
  by (cases "create_ride_type cat"; cases "get_available_driver dm h") auto

lemma book_ride_ride_invariant:
  assumes "list_all ride_invariant (ride_objs h)"
  shows "list_all ride_invariant (ride_objs (snd (book_ride dm c p q dist cat h)))"
  using book_ride_cases [of cat dm h] assms
  by (auto simp: book_ride_invalid book_ride_none book_ride_found print_def ride_invariant_def)

lemma book_ride_wf:
  assumes wf: "wf_heap dm h" and c: "c < length (customer_objs h)"
  shows "wf_heap dm (snd (book_ride dm c p q dist cat h))"
proof -
  consider e where "create_ride_type cat = Inl e"
    | rt where "create_ride_type cat = Inr rt" "get_available_driver dm h = None"
    | rt d where "create_ride_type cat = Inr rt" "get_available_driver dm h = Some d"
    using book_ride_cases [of cat dm h] by blast
  then show ?thesis
  proof cases
    case 1
    then show ?thesis
      using wf by (simp add: book_ride_invalid print_def wf_heap_def cong: option.case_cong)
  next
    case 2
    then show ?thesis
      using wf c
      by (auto simp: book_ride_none wf_heap_def list_all_iff less_SucI split: option.splits)
  next
    case 3
    have d: "d < length (driver_objs h)"
      using wf 3(2) by (simp add: get_available_driver_Some_available wf_heap_driver)
    have "customer_objs h ! c \<in> set (customer_objs h)"
      using c by simp
    then have m: "\<forall>r\<in>set (ride_history (customer_objs h ! c)). r < length (ride_objs h)"
      using wf_heap_history [OF wf] by blast
    show ?thesis
      using wf c d m 3
      by (auto simp: book_ride_found wf_heap_def list_all_iff less_SucI
            split: option.splits dest!: set_update_subset_insert [THEN subsetD])
  qed
qed

lemma wf_one_booked: "wf_heap two_drivers heap_one_booked"
  by (simp add: wf_heap_def two_drivers_def heap_one_booked_def three_customers_def
        ride_john_def)

lemma wf_all_booked: "wf_heap two_drivers heap_all_booked"
  by (simp add: wf_heap_def two_drivers_def heap_all_booked_def three_customers_def
        ride_john_def ride_rebecca_new_def)

lemma recognized_Luxury: "recognized ''Luxury''"
  by (simp add: recognized_def casing_of_def same_letter_def)

lemma recognized_Pool: "recognized ''Pool''"
  by (simp add: recognized_def casing_of_def same_letter_def)

lemma not_recognized_Premium: "\<not> recognized ''Premium''"
  by (simp add: recognized_def casing_of_def same_letter_def)

text \<open>
  Claim C1. In a well-formed store, for an allocated customer, a recognized category and
  a registry with at least one Available driver, \<^verbatim>\<open>book_ride\<close> returns a new ride; the
  customer's history is the old one with exactly that ride appended; the ride is
  confirmed, priced by the category's policy and driven by the first driver of the
  registry that was Available, who is now Occupied with that ride; every other customer,
  driver and ride, and the output, are as before.
\<close>

theorem book_ride_success:
  assumes wf: "wf_heap dm h"
    and c: "c < length (customer_objs h)"
    and cat: "recognized cat"
    and av: "\<exists>d\<in>set (drivers dm). status (driver_objs h ! d) = AVAILABLE"
  shows "\<exists>ride d h' rt.
           book_ride dm c p q dist cat h = (Some ride, h') \<and>
           ride = length (ride_objs h) \<and>
           (\<exists>i<length (drivers dm). drivers dm ! i = d \<and>
              status (driver_objs h ! d) = AVAILABLE \<and>
              (\<forall>j<i. status (driver_objs h ! (drivers dm ! j)) \<noteq> AVAILABLE)) \<and>
           ride_history (customer_objs h' ! c) = ride_history (customer_objs h ! c) @ [ride] \<and>
           ride \<notin> set (ride_history (customer_objs h ! c)) \<and>
           Customer.name (customer_objs h' ! c) = Customer.name (customer_objs h ! c) \<and>
           length (customer_objs h') = length (customer_objs h) \<and>
           (\<forall>c'. c' \<noteq> c \<longrightarrow> customer_objs h' ! c' = customer_objs h ! c') \<and>
           length (ride_objs h') = Suc (length (ride_objs h)) \<and>
           (\<forall>r<length (ride_objs h). ride_objs h' ! r = ride_objs h ! r) \<and>
           create_ride_type cat = Inr rt \<and>
           ride_objs h' ! ride =
             \<lparr>customer = c, pickup_location = p, dropoff_location = q, distance = dist,
              ride_type = rt, fare = calculate_fare rt dist, driver = Some d,
              is_confirmed = True\<rparr> \<and>
           status (driver_objs h' ! d) = OCCUPIED \<and>
           current_ride (driver_objs h' ! d) = Some ride \<and>
           Driver.name (driver_objs h' ! d) = Driver.name (driver_objs h ! d) \<and>
           length (driver_objs h') = length (driver_objs h) \<and>
           (\<forall>d'. d' \<noteq> d \<longrightarrow> driver_objs h' ! d' = driver_objs h ! d') \<and>
           stdout h' = stdout h"
proof -
  from cat obtain rt where rt: "create_ride_type cat = Inr rt"
    by (auto simp: create_ride_type_recognized)
  from av have "scan_drivers (drivers dm) h \<noteq> None"
    by (simp add: scan_drivers_None)
  then obtain d where d: "get_available_driver dm h = Some d"
    by (auto simp: get_available_driver_def)
  then have first: "\<exists>i<length (drivers dm). drivers dm ! i = d \<and>
              status (driver_objs h ! d) = AVAILABLE \<and>
              (\<forall>j<i. status (driver_objs h ! (drivers dm ! j)) \<noteq> AVAILABLE)"
    by (simp add: get_available_driver_def scan_drivers_Some)
  have "d \<in> set (drivers dm)"
    using d by (simp add: get_available_driver_Some_available)
  with wf have dlen: "d < length (driver_objs h)"
    by (rule wf_heap_driver)
  have "customer_objs h ! c \<in> set (customer_objs h)"
    using c by simp
  then have fresh: "length (ride_objs h) \<notin> set (ride_history (customer_objs h ! c))"
    using wf_heap_history [OF wf] by blast
  let ?ride = "length (ride_objs h)"
  let ?h' = "h\<lparr>driver_objs := (driver_objs h)
                 [d := (driver_objs h ! d)\<lparr>status := OCCUPIED, current_ride := Some ?ride\<rparr>],
              customer_objs := (customer_objs h)
                 [c := (customer_objs h ! c)
                    \<lparr>ride_history := ride_history (customer_objs h ! c) @ [?ride]\<rparr>],
              ride_objs := ride_objs h @
                 [\<lparr>customer = c, pickup_location = p, dropoff_location = q,
                   distance = dist, ride_type = rt, fare = calculate_fare rt dist,
                   driver = Some d, is_confirmed = True\<rparr>]\<rparr>"
  have run: "book_ride dm c p q dist cat h = (Some ?ride, ?h')"
    using rt d by (rule book_ride_found)
  have props: "ride_history (customer_objs ?h' ! c) = ride_history (customer_objs h ! c) @ [?ride]"
    "Customer.name (customer_objs ?h' ! c) = Customer.name (customer_objs h ! c)"
    "length (customer_objs ?h') = length (customer_objs h)"
    "\<forall>c'. c' \<noteq> c \<longrightarrow> customer_objs ?h' ! c' = customer_objs h ! c'"
    "length (ride_objs ?h') = Suc (length (ride_objs h))"
    "\<forall>r<length (ride_objs h). ride_objs ?h' ! r = ride_objs h ! r"
    "ride_objs ?h' ! ?ride =
             \<lparr>customer = c, pickup_location = p, dropoff_location = q, distance = dist,
              ride_type = rt, fare = calculate_fare rt dist, driver = Some d,
              is_confirmed = True\<rparr>"
    "status (driver_objs ?h' ! d) = OCCUPIED"
    "current_ride (driver_objs ?h' ! d) = Some ?ride"
    "Driver.name (driver_objs ?h' ! d) = Driver.name (driver_objs h ! d)"
    "length (driver_objs ?h') = length (driver_objs h)"
    "\<forall>d'. d' \<noteq> d \<longrightarrow> driver_objs ?h' ! d' = driver_objs h ! d'"
    "stdout ?h' = stdout h"
    using c dlen by (simp_all add: nth_append)
  show ?thesis
    using run first fresh rt props by blast
qed

theorem book_ride_success_witness:
  "wf_heap two_drivers heap_one_booked \<and>
   1 < length (customer_objs heap_one_booked) \<and>
   recognized ''Luxury'' \<and>
   (\<exists>d\<in>set (drivers two_drivers). status (driver_objs heap_one_booked ! d) = AVAILABLE) \<and>
   (\<exists>h'. book_ride two_drivers 1 ''College'' ''Downtown'' (PyInt 10) ''Luxury'' heap_one_booked =
           (Some 1, h') \<and>
         ride_history (customer_objs h' ! 1) = [1] \<and>
         ride_objs h' ! 1 = ride_rebecca_new\<lparr>driver := Some 1, is_confirmed := True\<rparr> \<and>
         status (driver_objs h' ! 1) = OCCUPIED \<and>
         current_ride (driver_objs h' ! 1) = Some 1)"
proof -
  have c: "1 < length (customer_objs heap_one_booked)"
    by (simp add: heap_one_booked_def three_customers_def)
  have av: "\<exists>d\<in>set (drivers two_drivers). status (driver_objs heap_one_booked ! d) = AVAILABLE"
    by (simp add: heap_one_booked_def two_drivers_def)
  have len: "length (ride_objs heap_one_booked) = 1"
    by (simp add: heap_one_booked_def)
  have hist: "ride_history (customer_objs heap_one_booked ! 1) = []"
    by (simp add: heap_one_booked_def three_customers_def)
  have rt: "create_ride_type ''Luxury'' = Inr LuxuryRide"
    by (simp add: create_ride_type_unfold lower_economy lower_luxury casing_of_def
          same_letter_def)
  have occ: "status (driver_objs heap_one_booked ! 0) = OCCUPIED"
    by (simp add: heap_one_booked_def)
  from book_ride_success [OF wf_one_booked c recognized_Luxury av,
      of "''College''" "''Downtown''" "PyInt 10"]
  obtain ride d h' rt where r:
    "book_ride two_drivers 1 ''College'' ''Downtown'' (PyInt 10) ''Luxury'' heap_one_booked = (Some ride, h')"
    "ride = length (ride_objs heap_one_booked)"
    "\<exists>i<length (drivers two_drivers). drivers two_drivers ! i = d \<and>
        status (driver_objs heap_one_booked ! d) = AVAILABLE \<and>
        (\<forall>j<i. status (driver_objs heap_one_booked ! (drivers two_drivers ! j)) \<noteq> AVAILABLE)"
    "ride_history (customer_objs h' ! 1) = ride_history (customer_objs heap_one_booked ! 1) @ [ride]"
    "create_ride_type ''Luxury'' = Inr rt"
    "ride_objs h' ! ride =
       \<lparr>customer = 1, pickup_location = ''College'', dropoff_location = ''Downtown'',
        distance = PyInt 10, ride_type = rt, fare = calculate_fare rt (PyInt 10), driver = Some d,
        is_confirmed = True\<rparr>"
    "status (driver_objs h' ! d) = OCCUPIED"
    "current_ride (driver_objs h' ! d) = Some ride"
    by blast
  from r(3) occ have d: "d = 1"
    by (auto simp: two_drivers_def less_Suc_eq numeral_2_eq_2)
  from r(5) rt have "rt = LuxuryRide" by simp
  with r d len hist
  have "book_ride two_drivers 1 ''College'' ''Downtown'' (PyInt 10) ''Luxury'' heap_one_booked =
           (Some 1, h') \<and>
         ride_history (customer_objs h' ! 1) = [1] \<and>
         ride_objs h' ! 1 = ride_rebecca_new\<lparr>driver := Some 1, is_confirmed := True\<rparr> \<and>
         status (driver_objs h' ! 1) = OCCUPIED \<and>
         current_ride (driver_objs h' ! 1) = Some 1"
    by (simp add: ride_rebecca_new_def)
  then show ?thesis
    using wf_one_booked c recognized_Luxury av by blast
qed

text \<open>
  Claim C5. In a well-formed store, for a recognized category and a registry without an
  Available driver, \<^verbatim>\<open>book_ride\<close> returns absent; every driver, every customer (so every
  history) and the output are as before; the ride constructed during the attempt is the
  only new object, and no history and no driver refers to it.
\<close>

theorem book_ride_no_driver:
  assumes wf: "wf_heap dm h"
    and cat: "recognized cat"
    and none: "\<forall>d\<in>set (drivers dm). status (driver_objs h ! d) \<noteq> AVAILABLE"
  shows "\<exists>h' discarded.
           book_ride dm c p q dist cat h = (None, h') \<and>
           driver_objs h' = driver_objs h \<and>
           customer_objs h' = customer_objs h \<and>
           stdout h' = stdout h \<and>
           ride_objs h' = ride_objs h @ [discarded] \<and>
           (\<forall>cu\<in>set (customer_objs h'). length (ride_objs h) \<notin> set (ride_history cu)) \<and>
           (\<forall>dr\<in>set (driver_objs h'). current_ride dr \<noteq> Some (length (ride_objs h)))"
proof -
  from cat obtain rt where rt: "create_ride_type cat = Inr rt"
    by (auto simp: create_ride_type_recognized)
  from none have "get_available_driver dm h = None"
    by (simp add: get_available_driver_def scan_drivers_None)
  with rt have run: "book_ride dm c p q dist cat h =
           (None, h\<lparr>ride_objs := ride_objs h @
              [\<lparr>customer = c, pickup_location = p, dropoff_location = q,
                distance = dist, ride_type = rt, fare = calculate_fare rt dist,
                driver = None, is_confirmed = False\<rparr>]\<rparr>)"
    by (rule book_ride_none)
  have a: "\<forall>cu\<in>set (customer_objs h). length (ride_objs h) \<notin> set (ride_history cu)"
    using wf_heap_history [OF wf] by blast
  have b: "\<forall>dr\<in>set (driver_objs h). current_ride dr \<noteq> Some (length (ride_objs h))"
    using wf_heap_current_ride [OF wf] by blast
  show ?thesis
    using run a b by simp
qed

theorem book_ride_no_driver_witness:
  "wf_heap two_drivers heap_all_booked \<and> recognized ''Pool'' \<and>
   status (driver_objs heap_all_booked ! 0) = OCCUPIED \<and>
   status (driver_objs heap_all_booked ! 1) = OCCUPIED \<and>
   (\<exists>h' discarded.
      book_ride two_drivers 2 ''Downtown'' ''Shopping Mall'' (PyInt 5) ''Pool'' heap_all_booked = (None, h') \<and>
      driver_objs h' = driver_objs heap_all_booked \<and>
      customer_objs h' = customer_objs heap_all_booked \<and>
      ride_objs h' = ride_objs heap_all_booked @ [discarded])"
proof -
  have occ: "status (driver_objs heap_all_booked ! 0) = OCCUPIED"
    "status (driver_objs heap_all_booked ! 1) = OCCUPIED"
    by (simp_all add: heap_all_booked_def)
  then have none:
    "\<forall>d\<in>set (drivers two_drivers). status (driver_objs heap_all_booked ! d) \<noteq> AVAILABLE"
    by (simp add: two_drivers_def)
  show ?thesis
    using wf_all_booked recognized_Pool occ
      book_ride_no_driver [OF wf_all_booked recognized_Pool none,
        of 2 "''Downtown''" "''Shopping Mall''" "PyInt 5"]
    by blast
qed

text \<open>
  Claim C4. For a category that is not recognized, \<^verbatim>\<open>book_ride\<close> returns absent and
  changes nothing but the output, to which it adds the line
  \<open>Error booking ride: Invalid ride type: \<close> followed by the category as given; the
  returned value is the one returned when a recognized category finds no Available
  driver.
\<close>

theorem book_ride_invalid_category:
  assumes "\<not> recognized cat"
  shows "book_ride dm c p q dist cat h =
           (None, h\<lparr>stdout := stdout h @ ''Error booking ride: Invalid ride type: '' @ cat @
                                 [CHR 0x0A]\<rparr>) \<and>
         driver_objs (snd (book_ride dm c p q dist cat h)) = driver_objs h \<and>
         customer_objs (snd (book_ride dm c p q dist cat h)) = customer_objs h \<and>
         ride_objs (snd (book_ride dm c p q dist cat h)) = ride_objs h \<and>
         (\<forall>dm' c' p' q' dist' cat' h'.
            recognized cat' \<and> get_available_driver dm' h' = None \<longrightarrow>
            fst (book_ride dm' c' p' q' dist' cat' h') = fst (book_ride dm c p q dist cat h))"
proof -
  have e: "create_ride_type cat = Inl (ValueError (''Invalid ride type: '' @ cat))"
    using assms by (rule create_ride_type_unrecognized)
  have run: "book_ride dm c p q dist cat h =
           (None, h\<lparr>stdout := stdout h @ ''Error booking ride: Invalid ride type: '' @ cat @
                                 [CHR 0x0A]\<rparr>)"
    by (simp add: book_ride_invalid [OF e] print_def)
  have other: "fst (book_ride dm' c' p' q' dist' cat' h') = None"
    if "recognized cat'" and "get_available_driver dm' h' = None"
    for dm' c' p' q' dist' cat' h'
  proof -
    from that(1) obtain rt where "create_ride_type cat' = Inr rt"
      by (auto simp: create_ride_type_recognized)
    then show ?thesis
      using that(2) by (simp add: book_ride_none)
  qed
  show ?thesis
    using run other by simp
qed

theorem book_ride_invalid_category_witness:
  "\<not> recognized ''Premium'' \<and>
   book_ride two_drivers 1 ''College'' ''Downtown'' (PyInt 10) ''Premium'' heap_one_booked =
     (None, heap_one_booked
        \<lparr>stdout := ''Error booking ride: Invalid ride type: Premium'' @ [CHR 0x0A]\<rparr>) \<and>
   recognized ''Pool'' \<and>
   get_available_driver two_drivers heap_all_booked = None \<and>
   fst (book_ride two_drivers 2 ''Downtown'' ''Shopping Mall'' (PyInt 5) ''Pool'' heap_all_booked) =
     fst (book_ride two_drivers 1 ''College'' ''Downtown'' (PyInt 10) ''Premium'' heap_one_booked)"
proof -
  have none: "get_available_driver two_drivers heap_all_booked = None"
    by (simp add: get_available_driver_def two_drivers_def heap_all_booked_def
          is_available_def)
  have out: "stdout heap_one_booked = []"
    by (simp add: heap_one_booked_def)
  show ?thesis
    using not_recognized_Premium recognized_Pool none out
      book_ride_invalid_category [OF not_recognized_Premium,
        of two_drivers 1 "''College''" "''Downtown''" "PyInt 10" heap_one_booked]
    by simp
qed

section \<open>The demonstration\<close>

text \<open>
  An \<^verbatim>\<open>int\<close> below \<open>2^53\<close> is a double, so it is formatted as its own decimal digits.
\<close>

lemma format_0f_int [code]:
  "format_0f (PyInt n) =
     (if 0 \<le> n \<and> n < 2 ^ 53 then Inr (decimal n)
      else (case float_of_int n of Inl e \<Rightarrow> Inl e | Inr x \<Rightarrow> Inr (float_format_0f x)))"
proof (cases "0 \<le> n \<and> n < 2 ^ 53")
  case True
  then have "bit_length n \<le> 53" by (simp only: bit_length_le_iff)
  then have r: "round53 \<bar>n\<bar> = n" using True by (simp add: round53_def)
  have "(2::int) ^ 53 \<le> 2 ^ 1024" by (rule power_increasing) simp_all
  then have small: "\<not> 2 ^ 1024 \<le> n" using True by linarith
  have f: "float_of_int n = Inr (Finite False (n * 2 ^ 1074))"
    using True small by (simp only: float_of_int_def Let_def r) simp
  have "float_format_0f (Finite False (n * 2 ^ 1074)) = decimal n"
    by (simp only: float_format_0f.simps Let_def) simp
  with f True show ?thesis by simp
next
  case False
  then show ?thesis by (simp only: format_0f.simps if_False)
qed

text \<open>
  Claim C9. Run from an empty store, the demonstration ends without an exception; its
  output is the header, then for John's booking a fare of 75 with driver Alice, for
  Rebecca's a fare of 100 with driver Bob, and for Mike's the line
  \<open>No drivers available.\<close>; John's and Rebecca's histories hold their one confirmed ride,
  and Mike's history is empty.
\<close>

theorem main_demo:
  "fst (main empty_heap) = Inr () \<and>
   stdout (snd (main empty_heap)) =
     ''=== SwiftRide System Test ==='' @ [CHR 0x0A, CHR 0x0A] @
     ''Task 6:'' @ [CHR 0x0A] @
     ''Ride Fare: $75, Driver: Alice'' @ [CHR 0x0A, CHR 0x0A] @
     ''Task 7:'' @ [CHR 0x0A] @
     ''Ride Fare: $100, Driver: Bob'' @ [CHR 0x0A, CHR 0x0A] @
     ''Task 8:'' @ [CHR 0x0A] @
     ''No drivers available.'' @ [CHR 0x0A] \<and>
   map Driver.name (driver_objs (snd (main empty_heap))) = [''Alice'', ''Bob''] \<and>
   map status (driver_objs (snd (main empty_heap))) = [OCCUPIED, OCCUPIED] \<and>
   map Customer.name (customer_objs (snd (main empty_heap))) = [''John'', ''Rebecca'', ''Mike''] \<and>
   map ride_history (customer_objs (snd (main empty_heap))) = [ [0], [1], [] ] \<and>
   map fare (ride_objs (snd (main empty_heap))) = [PyInt 75, PyInt 100, PyInt 15] \<and>
   map driver (ride_objs (snd (main empty_heap))) = [Some 0, Some 1, None] \<and>
   map is_confirmed (ride_objs (snd (main empty_heap))) = [True, True, False]"
  by code_simp

end
